theory Spec2Isabelle
  imports Main "HOL-Library.Word"
begin

unbundle bit_operations_syntax

section \<open>The Go \<open>time\<close> package, as far as chrono uses it\<close>

text \<open>
  chrono wraps \<open>time.Time\<close>.  The standard library is not part of the repository, so the
  part of it that chrono calls is modelled here from its source and documentation:
  the proleptic Gregorian calendar, \<open>time.Date\<close> with its normalisation of out-of-range
  fields, the accessors, comparison, \<open>AddDate\<close>, \<open>Unix\<close> and zone changes.
  Go's \<open>int\<close> and \<open>int64\<close> are mathematical integers in this model: the wrap-around of
  the standard library at years beyond \<open>\<plusminus>292\<close> billion is outside it.  A location is
  a zone with one fixed offset (\<open>time.UTC\<close>, \<open>time.FixedZone\<close>); transition tables
  are not modelled.
\<close>

subsection \<open>Integer division as Go has it\<close>

definition tdiv :: "int \<Rightarrow> int \<Rightarrow> int" where
  \<comment> \<open>Go's \<open>/\<close> on integers truncates towards zero\<close>
  "tdiv a b = sgn a * sgn b * (\<bar>a\<bar> div \<bar>b\<bar>)"

definition tmod :: "int \<Rightarrow> int \<Rightarrow> int" where
  \<comment> \<open>Go's \<open>%\<close>: the remainder has the sign of the dividend\<close>
  "tmod a b = a - b * tdiv a b"

subsection \<open>Calendar\<close>

definition isLeap :: "int \<Rightarrow> bool" where
  "isLeap year = (year mod 4 = 0 \<and> (year mod 100 \<noteq> 0 \<or> year mod 400 = 0))"

definition daysBefore :: "int \<Rightarrow> int" where
  \<comment> \<open>\<open>daysBefore[m]\<close>: days in a non-leap year before month \<open>m + 1\<close>\<close>
  "daysBefore m =
     (if m = 0 then 0 else if m = 1 then 31 else if m = 2 then 59 else if m = 3 then 90
      else if m = 4 then 120 else if m = 5 then 151 else if m = 6 then 181
      else if m = 7 then 212 else if m = 8 then 243 else if m = 9 then 273
      else if m = 10 then 304 else if m = 11 then 334 else 365)"

definition daysIn :: "int \<Rightarrow> int \<Rightarrow> int" where
  "daysIn m year =
     (if m = 2 \<and> isLeap year then 29 else daysBefore m - daysBefore (m - 1))"

definition norm :: "int \<Rightarrow> int \<Rightarrow> int \<Rightarrow> int \<times> int" where
  \<comment> \<open>\<open>norm(hi, lo, base)\<close>: carry \<open>lo\<close> into \<open>hi\<close> until \<open>0 \<le> lo < base\<close>\<close>
  "norm hi lo base = (hi + lo div base, lo mod base)"

definition daysSinceEpoch :: "int \<Rightarrow> int" where
  \<comment> \<open>days from January 1 of year 1 to January 1 of \<open>year\<close>\<close>
  "daysSinceEpoch year =
     (let y = year - 1 in 365 * y + y div 4 - y div 100 + y div 400)"

definition dateToDays :: "int \<Rightarrow> int \<Rightarrow> int \<Rightarrow> int" where
  \<comment> \<open>the day count inside \<open>time.Date\<close>, for a month already in 1..12\<close>
  "dateToDays year month day =
     daysSinceEpoch year + daysBefore (month - 1)
       + (if isLeap year \<and> month \<ge> 3 then 1 else 0) + (day - 1)"

definition absYear :: "int \<Rightarrow> int \<times> int" where
  \<comment> \<open>\<open>absDate\<close>, first half: cut off 400-, 100-, 4- and 1-year cycles\<close>
  "absYear d =
     (let n400 = d div 146097;
          d1 = d - 146097 * n400;
          n = d1 div 36524;
          n100 = n - n div 4;
          d2 = d1 - 36524 * n100;
          n4 = d2 div 1461;
          d3 = d2 - 1461 * n4;
          n' = d3 div 365;
          n1 = n' - n' div 4;
          d4 = d3 - 365 * n1
      in (400 * n400 + 100 * n100 + 4 * n4 + n1 + 1, d4))"

definition ydayMonthDay :: "int \<Rightarrow> int \<Rightarrow> int \<times> int" where
  \<comment> \<open>\<open>absDate\<close>, second half: month and day of the month from the day of the year\<close>
  "ydayMonthDay year yday =
     (if isLeap year \<and> yday = 31 + 29 - 1 then (2, 29)
      else
        let day = (if isLeap year \<and> yday > 31 + 29 - 1 then yday - 1 else yday);
            month = day div 31;
            end = daysBefore (month + 1)
        in if day \<ge> end then (month + 2, day - end + 1)
           else (month + 1, day - daysBefore month + 1))"

definition absDate :: "int \<Rightarrow> int \<times> int \<times> int" where
  "absDate d =
     (let (year, yday) = absYear d; (month, day) = ydayMonthDay year yday
      in (year, month, day))"

subsection \<open>Locations and instants\<close>

datatype Location = Location (zname: string) (zoffset: int)

definition UTC :: Location where
  "UTC = Location ''UTC'' 0"

definition FixedZone :: "string \<Rightarrow> int \<Rightarrow> Location" where
  "FixedZone name offset = Location name offset"

text \<open>
  A \<open>time.Time\<close>: seconds since January 1 of year 1, 00:00:00 UTC, nanoseconds within
  the second, and the location the wall clock is read in.
\<close>

record Instant =
  isec :: int
  insec :: int
  iloc :: Location

definition zeroInstant :: Instant where
  \<comment> \<open>\<open>time.Time{}\<close>\<close>
  "zeroInstant = \<lparr>isec = 0, insec = 0, iloc = UTC\<rparr>"

definition secondsPerDay :: int where
  "secondsPerDay = 86400"

definition unixToInternal :: int where
  "unixToInternal = (1969 * 365 + 1969 div 4 - 1969 div 100 + 1969 div 400) * secondsPerDay"

definition time_Date ::
  "int \<Rightarrow> int \<Rightarrow> int \<Rightarrow> int \<Rightarrow> int \<Rightarrow> int \<Rightarrow> int \<Rightarrow> Location \<Rightarrow> Instant" where
  "time_Date year month day hour minute sec nsec loc =
     (let (year1, m) = norm year (month - 1) 12;
          month1 = m + 1;
          (sec1, nsec1) = norm sec nsec 1000000000;
          (min1, sec2) = norm minute sec1 60;
          (hour1, min2) = norm hour min1 60;
          (day1, hour2) = norm day hour1 24;
          d = dateToDays year1 month1 day1;
          abs = d * secondsPerDay + (hour2 * 3600 + min2 * 60 + sec2)
      in \<lparr>isec = abs - zoffset loc, insec = nsec1, iloc = loc\<rparr>)"

definition time_abs :: "Instant \<Rightarrow> int" where
  \<comment> \<open>wall-clock seconds since year 1 in the instant's own location\<close>
  "time_abs t = isec t + zoffset (iloc t)"

definition time_date :: "Instant \<Rightarrow> int \<times> int \<times> int" where
  \<comment> \<open>\<open>t.Date()\<close>\<close>
  "time_date t = absDate (time_abs t div secondsPerDay)"

definition time_Year :: "Instant \<Rightarrow> int" where
  "time_Year t = fst (time_date t)"

definition time_Month :: "Instant \<Rightarrow> int" where
  "time_Month t = fst (snd (time_date t))"

definition time_Day :: "Instant \<Rightarrow> int" where
  "time_Day t = snd (snd (time_date t))"

definition time_Hour :: "Instant \<Rightarrow> int" where
  "time_Hour t = (time_abs t mod secondsPerDay) div 3600"

definition time_Minute :: "Instant \<Rightarrow> int" where
  "time_Minute t = (time_abs t mod 3600) div 60"

definition time_Second :: "Instant \<Rightarrow> int" where
  "time_Second t = time_abs t mod 60"

definition time_Nanosecond :: "Instant \<Rightarrow> int" where
  "time_Nanosecond t = insec t"

definition time_Location :: "Instant \<Rightarrow> Location" where
  "time_Location t = iloc t"

definition time_Equal :: "Instant \<Rightarrow> Instant \<Rightarrow> bool" where
  "time_Equal t u = (isec t = isec u \<and> insec t = insec u)"

definition time_After :: "Instant \<Rightarrow> Instant \<Rightarrow> bool" where
  "time_After t u = (isec t > isec u \<or> (isec t = isec u \<and> insec t > insec u))"

definition time_Before :: "Instant \<Rightarrow> Instant \<Rightarrow> bool" where
  "time_Before t u = (isec t < isec u \<or> (isec t = isec u \<and> insec t < insec u))"


definition time_In :: "Instant \<Rightarrow> Location \<Rightarrow> Instant" where
  "time_In t loc = t\<lparr>iloc := loc\<rparr>"

definition time_UTC :: "Instant \<Rightarrow> Instant" where
  "time_UTC t = t\<lparr>iloc := UTC\<rparr>"

definition time_Unix :: "Location \<Rightarrow> int \<Rightarrow> int \<Rightarrow> Instant" where
  \<comment> \<open>\<open>time.Unix(sec, nsec)\<close>; the first argument is the process's \<open>time.Local\<close>\<close>
  "time_Unix local sec nsec =
     (let (sec1, nsec1) =
            (if nsec < 0 \<or> nsec \<ge> 1000000000 then
               let n = tdiv nsec 1000000000;
                   s = sec + n;
                   ns = nsec - n * 1000000000
               in if ns < 0 then (s - 1, ns + 1000000000) else (s, ns)
             else (sec, nsec))
      in \<lparr>isec = sec1 + unixToInternal, insec = nsec1, iloc = local\<rparr>)"




section \<open>Package \<open>encoding/binary\<close>: little-endian 32-bit words\<close>

type_synonym uint32 = "32 word"
type_synonym byte = "8 word"

definition PutUint32 :: "uint32 \<Rightarrow> byte list" where
  \<comment> \<open>\<open>binary.LittleEndian.PutUint32\<close> into a fresh 4-byte buffer\<close>
  "PutUint32 v = [ucast v, ucast (drop_bit 8 v), ucast (drop_bit 16 v), ucast (drop_bit 24 v)]"

definition Uint32 :: "byte list \<Rightarrow> uint32" where
  \<comment> \<open>\<open>binary.LittleEndian.Uint32\<close>; the caller has checked the length\<close>
  "Uint32 b = ucast (b ! 0) OR push_bit 8 (ucast (b ! 1)) OR push_bit 16 (ucast (b ! 2))
                OR push_bit 24 (ucast (b ! 3))"

section \<open>chrono: errors\<close>

text \<open>
  An \<open>error\<close> is made by \<open>errors.New\<close> or \<open>fmt.Errorf\<close> from a message (kept with its
  verbs already substituted), or it is the \<open>*time.ParseError\<close> of a failed \<open>time.Parse\<close>, or
  it wraps another error with \<open>%w\<close> (kept as the format, its first argument and the
  wrapped error).
\<close>

datatype parse_error = ErrBad | ErrRange string | ErrExtraText

datatype error = Errorf string | ParseError parse_error | Wrap string string error

section \<open>The Go \<open>time\<close> package: layouts, \<open>Format\<close> and \<open>Parse\<close>\<close>

text \<open>
  A layout is kept as the sequence of chunks that \<open>nextStdChunk\<close> cuts the layout string
  into: literal text and the reference-time elements.  Only the elements that occur in
  the layouts of this package are modelled.
\<close>

datatype chunk =
    Lit string
  | StdLongYear  \<comment> \<open>\<open>2006\<close>\<close>
  | StdZeroMonth  \<comment> \<open>\<open>01\<close>\<close>
  | StdZeroDay  \<comment> \<open>\<open>02\<close>\<close>
  | StdHour  \<comment> \<open>\<open>15\<close>\<close>
  | StdZeroMinute  \<comment> \<open>\<open>04\<close>\<close>
  | StdZeroSecond  \<comment> \<open>\<open>05\<close>\<close>
  | StdFracSecond9 nat  \<comment> \<open>\<open>.999\<close> with that many nines\<close>
  | StdISO8601ColonTZ  \<comment> \<open>\<open>Z07:00\<close>\<close>
  | StdNumShortTZ  \<comment> \<open>\<open>-07\<close>\<close>

type_synonym layout = "chunk list"



subsection \<open>Digits\<close>

definition digitChar :: "nat \<Rightarrow> char" where
  "digitChar n = char_of (48 + n)"

definition isDigitChar :: "char \<Rightarrow> bool" where
  "isDigitChar c = (48 \<le> (of_char c :: nat) \<and> (of_char c :: nat) \<le> 57)"

definition digitVal :: "char \<Rightarrow> int" where
  "digitVal c = int (of_char c) - 48"

definition isDigit :: "string \<Rightarrow> nat \<Rightarrow> bool" where
  \<comment> \<open>\<open>isDigit(s, i)\<close>: false beyond the end of the string\<close>
  "isDigit s i = (i < length s \<and> isDigitChar (s ! i))"

definition commaOrPeriod :: "char \<Rightarrow> bool" where
  "commaOrPeriod c = (c = CHR ''.'' \<or> c = CHR '','')"

fun digits :: "nat \<Rightarrow> string" where
  "digits u = (if u < 10 then [digitChar u] else digits (u div 10) @ [digitChar (u mod 10)])"

declare digits.simps [simp del]

definition appendInt :: "int \<Rightarrow> nat \<Rightarrow> string" where
  \<comment> \<open>the decimal form of \<open>x\<close>, zero-padded to at least \<open>width\<close> digits\<close>
  "appendInt x width =
     (let ds = digits (nat \<bar>x\<bar>)
      in (if x < 0 then ''-'' else '''') @ replicate (width - length ds) (CHR ''0'') @ ds)"

fun atoi_digits :: "string \<Rightarrow> int \<Rightarrow> int option" where
  \<comment> \<open>\<open>atoi\<close> on a string without sign: every character must be a digit\<close>
  "atoi_digits [] acc = Some acc"
| "atoi_digits (c # cs) acc =
     (if isDigitChar c then atoi_digits cs (acc * 10 + digitVal c) else None)"

definition getnum :: "string \<Rightarrow> bool \<Rightarrow> (int \<times> string) option" where
  \<comment> \<open>one or two digits; with \<open>fixed\<close>, exactly two\<close>
  "getnum s fixed =
     (if \<not> isDigit s 0 then None
      else if \<not> isDigit s 1 then
        (if fixed then None else Some (digitVal (s ! 0), drop 1 s))
      else Some (digitVal (s ! 0) * 10 + digitVal (s ! 1), drop 2 s))"

subsection \<open>\<open>Format\<close>\<close>

fun dropTrailingZeros :: "string \<Rightarrow> string" where
  "dropTrailingZeros s = rev (dropWhile (\<lambda>c. c = CHR ''0'') (rev s))"

definition appendNano :: "int \<Rightarrow> nat \<Rightarrow> string" where
  \<comment> \<open>a \<open>.999\<close> element: up to \<open>n\<close> digits, trailing zeros and an empty fraction removed\<close>
  "appendNano nanosec n =
     (if n = 0 \<or> nanosec = 0 then ''''
      else
        let ds = dropTrailingZeros (take (min n 9) (appendInt nanosec 9))
        in if ds = [] then '''' else CHR ''.'' # ds)"

definition appendZone :: "int \<Rightarrow> bool \<Rightarrow> bool \<Rightarrow> string" where
  \<comment> \<open>the zone offset: \<open>zvariant\<close> prints \<open>Z\<close> for UTC, \<open>minutes\<close> adds \<open>:MM\<close>\<close>
  "appendZone offset zvariant minutes =
     (if offset = 0 \<and> zvariant then ''Z''
      else
        let zone = tdiv offset 60;
            sign = (if zone < 0 then ''-'' else ''+'');
            zone1 = (if zone < 0 then - zone else zone)
        in sign @ appendInt (tdiv zone1 60) 2
             @ (if minutes then '':'' @ appendInt (tmod zone1 60) 2 else ''''))"

fun formatChunk :: "Instant \<Rightarrow> chunk \<Rightarrow> string" where
  "formatChunk t (Lit s) = s"
| "formatChunk t StdLongYear = appendInt (time_Year t) 4"
| "formatChunk t StdZeroMonth = appendInt (time_Month t) 2"
| "formatChunk t StdZeroDay = appendInt (time_Day t) 2"
| "formatChunk t StdHour = appendInt (time_Hour t) 2"
| "formatChunk t StdZeroMinute = appendInt (time_Minute t) 2"
| "formatChunk t StdZeroSecond = appendInt (time_Second t) 2"
| "formatChunk t (StdFracSecond9 n) = appendNano (time_Nanosecond t) n"
| "formatChunk t StdISO8601ColonTZ = appendZone (zoffset (iloc t)) True True"
| "formatChunk t StdNumShortTZ = appendZone (zoffset (iloc t)) False False"

definition time_Format :: "Instant \<Rightarrow> layout \<Rightarrow> string" where
  "time_Format t layout = concat (map (formatChunk t) layout)"

subsection \<open>\<open>Parse\<close>\<close>

record pstate =
  p_year :: int
  p_month :: int
  p_day :: int
  p_hour :: int
  p_min :: int
  p_sec :: int
  p_nsec :: int
  p_z :: "Location option"
  p_zoneOffset :: int

definition pstate0 :: pstate where
  \<comment> \<open>the variables of \<open>parse\<close> before the first element\<close>
  "pstate0 = \<lparr>p_year = 0, p_month = - 1, p_day = - 1, p_hour = 0, p_min = 0, p_sec = 0,
              p_nsec = 0, p_z = None, p_zoneOffset = - 1\<rparr>"

definition cutspace :: "string \<Rightarrow> string" where
  "cutspace s = dropWhile (\<lambda>c. c = CHR '' '') s"

function skip :: "string \<Rightarrow> string \<Rightarrow> string option" where
  \<comment> \<open>\<open>skip(value, prefix)\<close>: a run of spaces in the layout matches any run of spaces\<close>
  "skip val [] = Some val"
| "skip val (p # ps) =
     (if p = CHR '' '' then
        (if val \<noteq> [] \<and> hd val \<noteq> CHR '' '' then None
         else skip (cutspace val) (cutspace ps))
      else
        (case val of
           [] \<Rightarrow> None
         | v # vs \<Rightarrow> if v \<noteq> p then None else skip vs ps))"
  by pat_completeness auto
termination
  by (relation "measure (\<lambda>(val, prefix). length prefix)")
    (auto simp: cutspace_def less_Suc_eq_le length_dropWhile_le)

definition parseNanoseconds :: "string \<Rightarrow> nat \<Rightarrow> parse_error + int" where
  \<comment> \<open>\<open>parseNanoseconds(value, nbytes)\<close>: a separator and \<open>nbytes - 1\<close> digits, scaled to nanoseconds\<close>
  "parseNanoseconds val nbytes =
     (if \<not> commaOrPeriod (val ! 0) then Inl ErrBad
      else
        let nb = (if nbytes > 10 then 10 else nbytes)
        in case atoi_digits (take (nb - 1) (drop 1 val)) 0 of
             None \<Rightarrow> Inl ErrBad
           | Some ns \<Rightarrow> Inr (ns * 10 ^ (10 - nb)))"

definition digitRun :: "string \<Rightarrow> nat" where
  \<comment> \<open>the number of digits at the start of the string\<close>
  "digitRun s = length (takeWhile isDigitChar s)"

fun nextStd :: "layout \<Rightarrow> chunk option" where
  \<comment> \<open>the next element of the layout that is not literal text\<close>
  "nextStd [] = None"
| "nextStd (Lit s # cs) = nextStd cs"
| "nextStd (c # cs) = Some c"

definition isFracSecond :: "chunk option \<Rightarrow> bool" where
  "isFracSecond c = (case c of Some (StdFracSecond9 n) \<Rightarrow> True | _ \<Rightarrow> False)"

definition parseZone :: "bool \<Rightarrow> string \<Rightarrow> pstate \<Rightarrow> parse_error + string \<times> pstate" where
  \<comment> \<open>a numeric zone offset, \<open>+hh:mm\<close> with \<open>colon\<close> and \<open>+hh\<close> without\<close>
  "parseZone colon val st =
     (if colon \<and> length val < 6 then Inl ErrBad
      else if colon \<and> val ! 3 \<noteq> CHR '':'' then Inl ErrBad
      else if \<not> colon \<and> length val < 3 then Inl ErrBad
      else
        let sign = val ! 0;
            hour = take 2 (drop 1 val);
            minute = (if colon then take 2 (drop 4 val) else ''00'');
            rest = (if colon then drop 6 val else drop 3 val);
            hr = getnum hour True;
            mm = (if hr = None then None else getnum minute True);
            hrv = (case hr of None \<Rightarrow> 0 | Some (n, _) \<Rightarrow> n);
            mmv = (case mm of None \<Rightarrow> 0 | Some (n, _) \<Rightarrow> n);
            off = (hrv * 60 + mmv) * 60
        in if mmv > 60 then Inl (ErrRange ''time zone offset minute'')
           else if hrv > 24 then Inl (ErrRange ''time zone offset hour'')
           else if mm = None then Inl ErrBad
           else if sign = CHR ''+'' then Inr (rest, st\<lparr>p_zoneOffset := off\<rparr>)
           else if sign = CHR ''-'' then Inr (rest, st\<lparr>p_zoneOffset := - off\<rparr>)
           else Inl ErrBad)"

fun parseStd :: "chunk \<Rightarrow> layout \<Rightarrow> string \<Rightarrow> pstate \<Rightarrow> parse_error + string \<times> pstate" where
  \<comment> \<open>one element of the layout; the second argument is the layout that follows it\<close>
  "parseStd (Lit p) rest val st =
     (case skip val p of None \<Rightarrow> Inl ErrBad | Some v \<Rightarrow> Inr (v, st))"
| "parseStd StdLongYear rest val st =
     (if length val < 4 \<or> \<not> isDigit val 0 then Inl ErrBad
      else case atoi_digits (take 4 val) 0 of
             None \<Rightarrow> Inl ErrBad
           | Some y \<Rightarrow> Inr (drop 4 val, st\<lparr>p_year := y\<rparr>))"
| "parseStd StdZeroMonth rest val st =
     (case getnum val True of
        None \<Rightarrow> Inl ErrBad
      | Some (n, v) \<Rightarrow>
          if n \<le> 0 \<or> 12 < n then Inl (ErrRange ''month'') else Inr (v, st\<lparr>p_month := n\<rparr>))"
| "parseStd StdZeroDay rest val st =
     (case getnum val True of
        None \<Rightarrow> Inl ErrBad
      | Some (n, v) \<Rightarrow> Inr (v, st\<lparr>p_day := n\<rparr>))"
| "parseStd StdHour rest val st =
     (case getnum val False of
        None \<Rightarrow> Inl ErrBad
      | Some (n, v) \<Rightarrow>
          if n < 0 \<or> 24 \<le> n then Inl (ErrRange ''hour'') else Inr (v, st\<lparr>p_hour := n\<rparr>))"
| "parseStd StdZeroMinute rest val st =
     (case getnum val True of
        None \<Rightarrow> Inl ErrBad
      | Some (n, v) \<Rightarrow>
          if n < 0 \<or> 60 \<le> n then Inl (ErrRange ''minute'') else Inr (v, st\<lparr>p_min := n\<rparr>))"
| "parseStd StdZeroSecond rest val st =
     (case getnum val True of
        None \<Rightarrow> Inl ErrBad
      | Some (n, v) \<Rightarrow>
          if n < 0 \<or> 60 \<le> n then Inl (ErrRange ''second'')
          else if length v \<ge> 2 \<and> commaOrPeriod (v ! 0) \<and> isDigit v 1
                  \<and> \<not> isFracSecond (nextStd rest)
          then
            \<comment> \<open>a fractional second in the input but none in the layout\<close>
            (let k = 1 + digitRun (drop 1 v)
             in case parseNanoseconds v k of
                  Inl e \<Rightarrow> Inl e
                | Inr ns \<Rightarrow> Inr (drop k v, st\<lparr>p_sec := n, p_nsec := ns\<rparr>))
          else Inr (v, st\<lparr>p_sec := n\<rparr>))"
| "parseStd (StdFracSecond9 n) rest val st =
     (if length val < 2 \<or> \<not> commaOrPeriod (val ! 0) \<or> \<not> isDigitChar (val ! 1)
      then Inr (val, st)
      else
        let k = 1 + digitRun (drop 1 val)
        in case parseNanoseconds val k of
             Inl e \<Rightarrow> Inl e
           | Inr ns \<Rightarrow> Inr (drop k val, st\<lparr>p_nsec := ns\<rparr>))"
| "parseStd StdISO8601ColonTZ rest val st =
     (if length val \<ge> 1 \<and> val ! 0 = CHR ''Z'' then Inr (drop 1 val, st\<lparr>p_z := Some UTC\<rparr>)
      else parseZone True val st)"
| "parseStd StdNumShortTZ rest val st = parseZone False val st"

fun parseLoop :: "layout \<Rightarrow> string \<Rightarrow> pstate \<Rightarrow> parse_error + pstate" where
  "parseLoop [] val st = (if val = [] then Inr st else Inl ErrExtraText)"
| "parseLoop (c # cs) val st =
     (case parseStd c cs val st of
        Inl e \<Rightarrow> Inl e
      | Inr (v, st1) \<Rightarrow> parseLoop cs v st1)"

definition parse :: "layout \<Rightarrow> string \<Rightarrow> Location \<Rightarrow> Location \<Rightarrow> parse_error + Instant" where
  \<comment> \<open>\<open>parse(layout, value, defaultLocation, local)\<close>\<close>
  "parse layout val defaultLocation local =
     (case parseLoop layout val pstate0 of
        Inl e \<Rightarrow> Inl e
      | Inr st \<Rightarrow>
          let month = (if p_month st < 0 then 1 else p_month st);
              day = (if p_day st < 0 then 1 else p_day st)
          in if day < 1 \<or> day > daysIn month (p_year st) then Inl (ErrRange ''day'')
             else
               case p_z st of
                 Some z \<Rightarrow>
                   Inr (time_Date (p_year st) month day (p_hour st) (p_min st) (p_sec st)
                          (p_nsec st) z)
               | None \<Rightarrow>
                   if p_zoneOffset st \<noteq> - 1 then
                     let t = time_Date (p_year st) month day (p_hour st) (p_min st) (p_sec st)
                               (p_nsec st) UTC;
                         t1 = t\<lparr>isec := isec t - p_zoneOffset st\<rparr>
                     in if zoffset local = p_zoneOffset st then Inr (t1\<lparr>iloc := local\<rparr>)
                        else Inr (t1\<lparr>iloc := FixedZone '''' (p_zoneOffset st)\<rparr>)
                   else
                     Inr (time_Date (p_year st) month day (p_hour st) (p_min st) (p_sec st)
                            (p_nsec st) defaultLocation))"

definition time_Parse :: "Location \<Rightarrow> layout \<Rightarrow> string \<Rightarrow> parse_error + Instant" where
  \<comment> \<open>\<open>time.Parse(layout, value)\<close>; the first argument is the process's \<open>time.Local\<close>\<close>
  "time_Parse local layout val = parse layout val UTC local"

definition time_ParseInLocation :: "layout \<Rightarrow> string \<Rightarrow> Location \<Rightarrow> parse_error + Instant" where
  "time_ParseInLocation layout val loc = parse layout val loc loc"

subsection \<open>The RFC 3339 codecs of \<open>time.Time\<close>\<close>







section \<open>Values of type \<open>any\<close> handed to \<open>Scan\<close> and returned by \<open>Value\<close>\<close>

text \<open>
  The dynamic types that the type switches of the \<open>Scan\<close> methods tell apart, and
  \<open>Other\<close> for a value of any further type, carrying the name that \<open>%T\<close> prints for it.
  A \<open>float64\<close> is represented by the \<open>int64\<close> that the conversion \<open>int64(v)\<close> yields,
  which is all that \<open>Scan\<close> uses of it.
\<close>

datatype any =
    Nil
  | Int64 "64 word"
  | Float64 "64 word"
  | String string
  | Bytes string
  | StdTime Instant
  | Other string

fun typeName :: "any \<Rightarrow> string" where
  \<comment> \<open>what \<open>%T\<close> prints\<close>
  "typeName Nil = ''<nil>''"
| "typeName (Int64 v) = ''int64''"
| "typeName (Float64 v) = ''float64''"
| "typeName (String v) = ''string''"
| "typeName (Bytes v) = ''[]uint8''"
| "typeName (StdTime v) = ''time.Time''"
| "typeName (Other n) = n"

section \<open>chrono: Date (date.go)\<close>

definition dateLayout :: layout where
  \<comment> \<open>\<open>"2006-01-02"\<close>\<close>
  "dateLayout = [StdLongYear, Lit ''-'', StdZeroMonth, Lit ''-'', StdZeroDay]"


datatype Date = Date (date_t: Instant)

definition NewDate :: "int \<Rightarrow> int \<Rightarrow> int \<Rightarrow> Date" where
  "NewDate year month day = Date (time_Date year month day 0 0 0 0 UTC)"

definition DateFromStdTime :: "Instant \<Rightarrow> Date" where
  "DateFromStdTime t = Date (time_Date (time_Year t) (time_Month t) (time_Day t) 0 0 0 0 UTC)"


definition DateFromUnix :: "Location \<Rightarrow> int \<Rightarrow> int \<Rightarrow> Date" where
  "DateFromUnix local sec nsec = DateFromStdTime (time_UTC (time_Unix local sec nsec))"



definition Date_ToStdTime :: "Date \<Rightarrow> Instant" where
  "Date_ToStdTime d =
     time_Date (time_Year (date_t d)) (time_Month (date_t d)) (time_Day (date_t d)) 0 0 0 0 UTC"

definition Date_Date :: "Date \<Rightarrow> int \<times> int \<times> int" where
  "Date_Date d = time_date (date_t d)"







definition Date_Equal :: "Date \<Rightarrow> Date \<Rightarrow> bool" where
  "Date_Equal d rhs = time_Equal (date_t d) (date_t rhs)"

definition Date_After :: "Date \<Rightarrow> Date \<Rightarrow> bool" where
  "Date_After d rhs = time_After (date_t d) (date_t rhs)"

definition Date_Before :: "Date \<Rightarrow> Date \<Rightarrow> bool" where
  "Date_Before d rhs = time_Before (date_t d) (date_t rhs)"

definition Date_MarshalBinary :: "Date \<Rightarrow> byte list \<times> error option" where
  "Date_MarshalBinary d =
     (let (y, m, day) = time_date (date_t d);
          out = (0 :: uint32);
          out = out OR word_of_int y;
          out = out OR push_bit 14 (word_of_int m);
          out = out OR push_bit (14 + 4) (word_of_int day)
      in (PutUint32 out, None))"

text \<open>
  The decoders write through their pointer receiver.  They are modelled as functions
  from the receiver's old value to its new value and the returned error.
\<close>

definition Date_UnmarshalBinary :: "Date \<Rightarrow> byte list \<Rightarrow> Date \<times> error option" where
  "Date_UnmarshalBinary d data =
     (if length data \<noteq> 4
      then (d, Some (Errorf ''failed to unmarshal date, incorrect number of bytes''))
      else
        let inw = Uint32 data;
            y = inw AND 0x3FFF;
            m = drop_bit 14 inw AND 0xF;
            day = drop_bit (14 + 4) inw AND 0x1F
        in (NewDate (uint y) (uint m) (uint day), None))"









fun Date_Scan :: "Location \<Rightarrow> Date \<Rightarrow> any \<Rightarrow> Date \<times> error option" where
  "Date_Scan local d Nil = (Date zeroInstant, None)"
| "Date_Scan local d (Int64 v) = (DateFromUnix local (sint v) 0, None)"
| "Date_Scan local d (Float64 v) = (DateFromUnix local (sint v) 0, None)"
| "Date_Scan local d (String v) =
     (case time_Parse local dateLayout v of
        Inl e \<Rightarrow> (d, Some (Wrap ''failed to scan date (%q): %w'' v (ParseError e)))
      | Inr t \<Rightarrow> (Date t, None))"
| "Date_Scan local d (Bytes v) =
     (case time_Parse local dateLayout v of
        Inl e \<Rightarrow> (d, Some (Wrap ''failed to scan date (%q): %w'' v (ParseError e)))
      | Inr t \<Rightarrow> (Date t, None))"
| "Date_Scan local d (StdTime v) = (DateFromStdTime v, None)"
| "Date_Scan local d (Other n) =
     (d, Some (Errorf (''failed to scan type '' @ [CHR 0x27] @ n @ [CHR 0x27] @ '' into date'')))"

section \<open>chrono: Time\<close>

definition timeLayout :: layout where
  \<comment> \<open>\<open>"15:04:05Z07:00"\<close>\<close>
  "timeLayout = [StdHour, Lit '':'', StdZeroMinute, Lit '':'', StdZeroSecond, StdISO8601ColonTZ]"


definition TimeSQLLayout :: layout where
  \<comment> \<open>\<open>"15:04:05.999999-07"\<close>\<close>
  "TimeSQLLayout = [StdHour, Lit '':'', StdZeroMinute, Lit '':'', StdZeroSecond,
                    StdFracSecond9 6, StdNumShortTZ]"

datatype Time = Time (time_t: Instant)

definition NewTime :: "int \<Rightarrow> int \<Rightarrow> int \<Rightarrow> int \<Rightarrow> Location \<Rightarrow> Time" where
  \<comment> \<open>the parameter \<open>loc\<close> is not used by the body\<close>
  "NewTime hour minute sec nsec loc = Time (time_Date 0 1 1 hour minute sec nsec UTC)"

definition TimeFromNow :: "Instant \<Rightarrow> Time" where
  \<comment> \<open>the argument is what \<open>time.Now()\<close> returns\<close>
  "TimeFromNow now = Time now"

definition TimeFromString :: "Location \<Rightarrow> string \<Rightarrow> Time \<times> error option" where
  "TimeFromString local str =
     (case time_Parse local timeLayout str of
        Inl e \<Rightarrow> (Time zeroInstant, Some (Wrap ''failed to parse time (%s): %w'' str (ParseError e)))
      | Inr t \<Rightarrow> (Time t, None))"

definition TimeFromStringLocation :: "string \<Rightarrow> Location \<Rightarrow> Time \<times> error option" where
  "TimeFromStringLocation str loc =
     (case time_ParseInLocation timeLayout str loc of
        Inl e \<Rightarrow> (Time zeroInstant, Some (Wrap ''failed to parse time (%s): %w'' str (ParseError e)))
      | Inr t \<Rightarrow> (Time t, None))"

definition TimeFromLayout :: "Location \<Rightarrow> layout \<Rightarrow> string \<Rightarrow> Time \<times> error option" where
  "TimeFromLayout local layout str =
     (case time_Parse local layout str of
        Inl e \<Rightarrow> (Time zeroInstant, Some (Wrap ''failed to parse time (%s): %w'' str (ParseError e)))
      | Inr t \<Rightarrow> (Time t, None))"

definition TimeFromLayoutLocation :: "layout \<Rightarrow> string \<Rightarrow> Location \<Rightarrow> Time \<times> error option" where
  \<comment> \<open>the body parses with \<open>timeLayout\<close>, not with its parameter \<open>layout\<close>\<close>
  "TimeFromLayoutLocation layout str loc =
     (case time_ParseInLocation timeLayout str loc of
        Inl e \<Rightarrow> (Time zeroInstant, Some (Wrap ''failed to parse time (%s): %w'' str (ParseError e)))
      | Inr t \<Rightarrow> (Time t, None))"

definition TimeFromStdTime :: "Instant \<Rightarrow> Time" where
  "TimeFromStdTime t =
     Time (time_Date 0 1 1 (time_Hour t) (time_Minute t) (time_Second t) (time_Nanosecond t)
             (time_Location t))"

definition TimeFromUnix :: "Location \<Rightarrow> int \<Rightarrow> int \<Rightarrow> Time" where
  "TimeFromUnix local sec nsec = TimeFromStdTime (time_UTC (time_Unix local sec nsec))"



definition Time_ToStdTime :: "Time \<Rightarrow> Instant" where
  "Time_ToStdTime t =
     time_Date 0 1 1 (time_Hour (time_t t)) (time_Minute (time_t t)) (time_Second (time_t t))
       (time_Nanosecond (time_t t)) (time_Location (time_t t))"








definition Time_Hour :: "Time \<Rightarrow> int" where
  "Time_Hour t = time_Hour (time_t t)"

definition Time_Minute :: "Time \<Rightarrow> int" where
  "Time_Minute t = time_Minute (time_t t)"

definition Time_Second :: "Time \<Rightarrow> int" where
  "Time_Second t = time_Second (time_t t)"

definition Time_Nanosecond :: "Time \<Rightarrow> int" where
  "Time_Nanosecond t = time_Nanosecond (time_t t)"

definition Time_In :: "Time \<Rightarrow> Location \<Rightarrow> Time" where
  "Time_In t loc = Time (time_In (time_t t) loc)"

definition Time_Local :: "Location \<Rightarrow> Time \<Rightarrow> Time" where
  \<comment> \<open>the first argument is the process's \<open>time.Local\<close>\<close>
  "Time_Local local t = Time (time_In (time_t t) local)"

definition Time_Location :: "Time \<Rightarrow> Location" where
  "Time_Location t = time_Location (time_t t)"



fun Time_Scan :: "Location \<Rightarrow> Time \<Rightarrow> any \<Rightarrow> Time \<times> error option" where
  "Time_Scan local t Nil = (Time zeroInstant, None)"
| "Time_Scan local t (Int64 v) = (TimeFromUnix local (sint v) 0, None)"
| "Time_Scan local t (Float64 v) = (TimeFromUnix local (sint v) 0, None)"
| "Time_Scan local t (String v) =
     (case time_Parse local TimeSQLLayout v of
        Inl e \<Rightarrow> (t, Some (Wrap ''failed to scan time (%q): %w'' v (ParseError e)))
      | Inr newt \<Rightarrow> (Time newt, None))"
| "Time_Scan local t (Bytes v) =
     (case time_Parse local TimeSQLLayout v of
        Inl e \<Rightarrow> (t, Some (Wrap ''failed to scan time (%q): %w'' v (ParseError e)))
      | Inr newt \<Rightarrow> (Time newt, None))"
| "Time_Scan local t (StdTime v) = (TimeFromStdTime v, None)"
| "Time_Scan local t (Other n) =
     (t, Some (Errorf (''failed to scan type '' @ [CHR 0x27] @ n @ [CHR 0x27] @ '' into time'')))"

section \<open>chrono: DateTime (date\_time.go)\<close>

definition dateTimeSQLLayout :: layout where
  \<comment> \<open>\<open>"2006-01-02 15:04:05-07"\<close>\<close>
  "dateTimeSQLLayout = [StdLongYear, Lit ''-'', StdZeroMonth, Lit ''-'', StdZeroDay, Lit '' '',
                        StdHour, Lit '':'', StdZeroMinute, Lit '':'', StdZeroSecond, StdNumShortTZ]"

datatype DateTime = DateTime (datetime_t: Instant)


definition DateTimeFromStdTime :: "Instant \<Rightarrow> DateTime" where
  "DateTimeFromStdTime t = DateTime t"

definition DateTimeFromLayoutLocation ::
  "layout \<Rightarrow> string \<Rightarrow> Location \<Rightarrow> DateTime \<times> error option" where
  "DateTimeFromLayoutLocation layout str loc =
     (case time_ParseInLocation layout str loc of
        Inl e \<Rightarrow>
          (DateTime zeroInstant, Some (Wrap ''failed to parse datetime (%s): %w'' str (ParseError e)))
      | Inr t \<Rightarrow> (DateTime t, None))"







fun DateTime_Scan :: "Location \<Rightarrow> DateTime \<Rightarrow> any \<Rightarrow> DateTime \<times> error option" where
  "DateTime_Scan local d (Int64 v) = (DateTime (time_UTC (time_Unix local (sint v) 0)), None)"
| "DateTime_Scan local d (Float64 v) = (DateTime (time_UTC (time_Unix local (sint v) 0)), None)"
| "DateTime_Scan local d (String v) =
     (case time_Parse local dateTimeSQLLayout v of
        Inl e \<Rightarrow> (d, Some (Wrap ''failed to scan datetime (%q): %w'' v (ParseError e)))
      | Inr t \<Rightarrow> (DateTime t, None))"
| "DateTime_Scan local d (Bytes v) =
     (case time_Parse local dateTimeSQLLayout v of
        Inl e \<Rightarrow> (d, Some (Wrap ''failed to scan datetime (%q): %w'' v (ParseError e)))
      | Inr t \<Rightarrow> (DateTime t, None))"
| "DateTime_Scan local d value =
     (d, Some (Errorf (''failed to scan type '' @ [CHR 0x27] @ typeName value @ [CHR 0x27]
                         @ '' into datetime'')))"

section \<open>Auxiliary notions for the statements\<close>

definition validDate :: "int \<Rightarrow> int \<Rightarrow> int \<Rightarrow> bool" where
  \<comment> \<open>a calendar date: the month in 1..12, the day within that month of that year\<close>
  "validDate year month day =
     (1 \<le> month \<and> month \<le> 12 \<and> 1 \<le> day \<and> day \<le> daysIn month year)"

definition pack :: "int \<Rightarrow> int \<Rightarrow> int \<Rightarrow> uint32" where
  \<comment> \<open>the word that \<open>MarshalBinary\<close> builds from the three fields\<close>
  "pack y m day = word_of_int y OR push_bit 14 (word_of_int m) OR push_bit (14 + 4) (word_of_int day)"







definition two :: "nat \<Rightarrow> string" where
  \<comment> \<open>two decimal digits\<close>
  "two u = [digitChar (u div 10), digitChar (u mod 10)]"

definition four :: "nat \<Rightarrow> string" where
  \<comment> \<open>four decimal digits\<close>
  "four u = [digitChar (u div 1000), digitChar (u div 100 mod 10), digitChar (u div 10 mod 10),
             digitChar (u mod 10)]"







section \<open>Lemmas\<close>

subsection \<open>Division helpers\<close>

lemma div_quot: "0 \<le> r \<Longrightarrow> r < k \<Longrightarrow> (k * q + r) div k = (q::int)"
  by (simp add: div_pos_pos_trivial)

lemma div_between:
  assumes a: "k * q \<le> x" "x < k * q + k"
  shows "x div k = (q::int)"
proof -
  have r: "0 \<le> x - k * q" "x - k * q < k" using a by simp_all
  then have k: "k \<noteq> 0" by linarith
  have "x div k = (k * q + (x - k * q)) div k" by simp
  also have "\<dots> = q + (x - k * q) div k" using k by (rule div_mult_self4)
  also have "(x - k * q) div k = 0" using r by (rule div_pos_pos_trivial)
  finally show ?thesis by simp
qed

lemma mod_between:
  assumes a: "k * q \<le> x" "x < k * q + k"
  shows "x mod k = x - k * (q::int)"
proof -
  have "x mod k = x - k * (x div k)" by (simp add: minus_mult_div_eq_mod)
  then show ?thesis using div_between [OF a] by simp
qed

lemma mod_multiple: "x = k * q \<Longrightarrow> x mod k = (0::int)"
  by simp

subsection \<open>The calendar: a date read back from its day count\<close>

lemma year_split:
  fixes y1 :: int
  obtains a b c e where "y1 = 400 * a + 100 * b + 4 * c + e"
    "0 \<le> b" "b \<le> 3" "0 \<le> c" "c \<le> 24" "0 \<le> e" "e \<le> 3"
proof -
  let ?a = "y1 div 400" and ?r = "y1 mod 400"
  let ?b = "?r div 100" and ?r2 = "?r mod 100"
  let ?c = "?r2 div 4" and ?e = "?r2 mod 4"
  have "y1 = 400 * ?a + ?r" by simp
  moreover have "?r = 100 * ?b + ?r2" by simp
  moreover have "?r2 = 4 * ?c + ?e" by simp
  ultimately have 1: "y1 = 400 * ?a + 100 * ?b + 4 * ?c + ?e" by linarith
  have r: "0 \<le> ?r" "?r < 400" by simp_all
  have r2: "0 \<le> ?r2" "?r2 < 100" by simp_all
  have 2: "0 \<le> ?b" "?b \<le> 3" using r by simp_all
  have 3: "0 \<le> ?c" "?c \<le> 24" using r2 by simp_all
  have 4: "0 \<le> ?e" "?e \<le> 3" by simp_all
  from 1 2 3 4 show ?thesis by (rule that)
qed

lemma daysSinceEpoch_cycles:
  assumes "0 \<le> b" "b \<le> 3" "0 \<le> c" "c \<le> 24" "0 \<le> e" "e \<le> 3"
  shows "daysSinceEpoch (400 * a + 100 * b + 4 * c + e + 1)
           = 146097 * a + 36524 * b + 1461 * c + 365 * e"
proof -
  let ?y = "400 * a + 100 * b + 4 * c + e"
  have "4 * (100 * a + 25 * b + c) \<le> ?y" "?y < 4 * (100 * a + 25 * b + c) + 4"
    using assms by simp_all
  then have q4: "?y div 4 = 100 * a + 25 * b + c" by (rule div_between)
  have "100 * (4 * a + b) \<le> ?y" "?y < 100 * (4 * a + b) + 100"
    using assms by simp_all
  then have q100: "?y div 100 = 4 * a + b" by (rule div_between)
  have "400 * a \<le> ?y" "?y < 400 * a + 400"
    using assms by simp_all
  then have q400: "?y div 400 = a" by (rule div_between)
  show ?thesis
    unfolding daysSinceEpoch_def Let_def using q4 q100 q400 by simp
qed

lemma isLeap_cycles:
  assumes "0 \<le> b" "b \<le> 3" "0 \<le> c" "c \<le> 24" "0 \<le> e" "e \<le> 3"
  shows "isLeap (400 * a + 100 * b + 4 * c + e + 1) \<longleftrightarrow> e = 3 \<and> (c \<noteq> 24 \<or> b = 3)"
proof -
  let ?y = "400 * a + 100 * b + 4 * c + e + 1"
  show ?thesis
  proof (cases "e = 3")
    case False
    have "4 * (100 * a + 25 * b + c) \<le> ?y" "?y < 4 * (100 * a + 25 * b + c) + 4"
      using assms False by simp_all
    then have "?y mod 4 = ?y - 4 * (100 * a + 25 * b + c)" by (rule mod_between)
    then have "?y mod 4 \<noteq> 0" using assms by simp
    with False show ?thesis by (simp add: isLeap_def)
  next
    case True
    have "?y = 4 * (100 * a + 25 * b + c + 1)" using True by simp
    then have m4: "?y mod 4 = 0" by (rule mod_multiple)
    show ?thesis
    proof (cases "c = 24")
      case c24: False
      have "100 * (4 * a + b) \<le> ?y" "?y < 100 * (4 * a + b) + 100"
        using assms True c24 by simp_all
      then have "?y mod 100 = ?y - 100 * (4 * a + b)" by (rule mod_between)
      then have "?y mod 100 \<noteq> 0" using assms by simp
      with m4 True c24 show ?thesis by (simp add: isLeap_def)
    next
      case c24: True
      have "?y = 100 * (4 * a + b + 1)" using True c24 by simp
      then have m100: "?y mod 100 = 0" by (rule mod_multiple)
      show ?thesis
      proof (cases "b = 3")
        case True
        have "?y = 400 * (a + 1)" using \<open>e = 3\<close> c24 True by simp
        then have "?y mod 400 = 0" by (rule mod_multiple)
        with m4 \<open>e = 3\<close> True show ?thesis by (simp add: isLeap_def)
      next
        case False
        have "400 * a \<le> ?y" "?y < 400 * a + 400"
          using assms False by simp_all
        then have "?y mod 400 = ?y - 400 * a" by (rule mod_between)
        then have "?y mod 400 \<noteq> 0" using assms by simp
        with m100 \<open>e = 3\<close> c24 False show ?thesis by (simp add: isLeap_def)
      qed
    qed
  qed
qed

lemma absYear_cycles:
  assumes b: "0 \<le> b" "b \<le> 3" and c: "0 \<le> c" "c \<le> 24" and e: "0 \<le> e" "e \<le> 3"
    and yd: "0 \<le> yd" "yd < 365 + (if e = 3 \<and> (c \<noteq> 24 \<or> b = 3) then 1 else 0)"
  shows "absYear (146097 * a + 36524 * b + 1461 * c + 365 * e + yd)
           = (400 * a + 100 * b + 4 * c + e + 1, yd)"
proof -
  let ?d = "146097 * a + 36524 * b + 1461 * c + 365 * e + yd"
  let ?d1 = "36524 * b + 1461 * c + 365 * e + yd"
  let ?d2 = "1461 * c + 365 * e + yd"
  let ?d3 = "365 * e + yd"
  have yd365: "yd \<le> 365" using yd by (simp split: if_splits)
  have n400: "?d div 146097 = a"
    using div_quot [of ?d1 146097 a] b c e yd yd365 by (simp add: algebra_simps)
  have n100: "?d1 div 36524 - (?d1 div 36524) div 4 = b"
  proof (cases "c = 24 \<and> e = 3 \<and> yd = 365")
    case True
    with yd b have "b = 3" by (simp split: if_splits)
    with True show ?thesis by simp
  next
    case False
    then have "?d2 < 36524" using c e yd yd365 by (auto split: if_splits)
    then have "?d1 div 36524 = b"
      using div_quot [of ?d2 36524 b] c e yd by (simp add: algebra_simps)
    then show ?thesis using b by simp
  qed
  have n4: "?d2 div 1461 = c"
    using div_quot [of ?d3 1461 c] e yd yd365 by (simp add: algebra_simps)
  have n1: "?d3 div 365 - (?d3 div 365) div 4 = e"
  proof (cases "yd = 365")
    case True
    with yd have "e = 3" by (simp split: if_splits)
    with True show ?thesis by simp
  next
    case False
    then have "?d3 div 365 = e"
      using div_quot [of yd 365 e] yd yd365 by (simp add: algebra_simps)
    then show ?thesis using e by simp
  qed
  have s1: "?d - 146097 * a = ?d1" by simp
  have s2: "?d1 - 36524 * b = ?d2" by simp
  have s3: "?d2 - 1461 * c = ?d3" by simp
  show ?thesis
    unfolding absYear_def Let_def n400 s1 n100 s2 n4 s3 n1 by simp
qed

lemma absYear_daysSinceEpoch:
  assumes "0 \<le> yd" "yd < 365 + (if isLeap y then 1 else 0)"
  shows "absYear (daysSinceEpoch y + yd) = (y, yd)"
proof -
  obtain a b c e where y1: "y - 1 = 400 * a + 100 * b + 4 * c + e"
    and r: "0 \<le> b" "b \<le> 3" "0 \<le> c" "c \<le> 24" "0 \<le> e" "e \<le> 3"
    by (rule year_split)
  from y1 have y: "y = 400 * a + 100 * b + 4 * c + e + 1" by simp
  have "yd < 365 + (if e = 3 \<and> (c \<noteq> 24 \<or> b = 3) then 1 else 0)"
    using assms(2) isLeap_cycles [OF r, of a] unfolding y by simp
  from absYear_cycles [OF r assms(1) this, of a] show ?thesis
    unfolding y daysSinceEpoch_cycles [OF r] .
qed

lemma month_disj:
  assumes "1 \<le> m" "m \<le> (12::int)"
  shows "m = 1 \<or> m = 2 \<or> m = 3 \<or> m = 4 \<or> m = 5 \<or> m = 6 \<or> m = 7 \<or> m = 8 \<or> m = 9
           \<or> m = 10 \<or> m = 11 \<or> m = 12"
proof -
  have "m \<in> set [1..12]" using assms by simp
  also have "[1..12] = [1, 2, 3, 4, 5, 6, 7, 8, 9, 10, 11, 12::int]" by code_simp
  finally show ?thesis by simp
qed

lemma ydayMonthDay_common:
  assumes m: "1 \<le> m" "m \<le> 12" and d: "1 \<le> d" "d \<le> daysBefore m - daysBefore (m - 1)"
  defines "day \<equiv> daysBefore (m - 1) + (d - 1)"
  shows "(let month = day div 31; end = daysBefore (month + 1)
          in if day \<ge> end then (month + 2, day - end + 1)
             else (month + 1, day - daysBefore month + 1)) = (m, d)"
proof (cases "day < 31 * (m - 1)")
  case True
  have "31 * (m - 2) \<le> day"
    using month_disj [OF m] d by (auto simp: day_def daysBefore_def)
  with True have "day div 31 = m - 2" by (intro div_between) simp_all
  moreover have "daysBefore (m - 1) \<le> day" using d by (simp add: day_def)
  ultimately show ?thesis by (simp add: Let_def day_def)
next
  case False
  have "day < 31 * (m - 1) + 31"
    using month_disj [OF m] d by (auto simp: day_def daysBefore_def)
  with False have "day div 31 = m - 1" by (intro div_between) simp_all
  moreover have "day < daysBefore m" using d by (simp add: day_def)
  ultimately show ?thesis by (simp add: Let_def day_def)
qed

lemma ydayMonthDay_inverse:
  assumes "validDate y m d"
  shows "ydayMonthDay y (daysBefore (m - 1) + (if isLeap y \<and> m \<ge> 3 then 1 else 0) + (d - 1))
           = (m, d)"
proof -
  from assms have m: "1 \<le> m" "m \<le> 12" and d: "1 \<le> d" "d \<le> daysIn m y"
    by (simp_all add: validDate_def)
  let ?yd = "daysBefore (m - 1) + (if isLeap y \<and> m \<ge> 3 then 1 else 0) + (d - 1)"
  show ?thesis
  proof (cases "isLeap y \<and> m = 2 \<and> d = 29")
    case True
    then show ?thesis by (simp add: ydayMonthDay_def daysBefore_def)
  next
    case False
    with d have d': "d \<le> daysBefore m - daysBefore (m - 1)"
      by (auto simp: daysIn_def daysBefore_def split: if_splits)
    define day where "day = daysBefore (m - 1) + (d - 1)"
    have low: "m \<le> 2 \<Longrightarrow> day < 31 + 29 - 1"
      using month_disj [OF m] d' by (auto simp: daysBefore_def day_def)
    have high: "3 \<le> m \<Longrightarrow> 31 + 28 \<le> day"
      using month_disj [OF m] d by (auto simp: daysBefore_def day_def)
    have "ydayMonthDay y ?yd =
        (let month = day div 31; end = daysBefore (month + 1)
          in if day \<ge> end then (month + 2, day - end + 1)
             else (month + 1, day - daysBefore month + 1))"
    proof (cases "isLeap y \<and> 3 \<le> m")
      case True
      then have "?yd = day + 1" by (simp add: day_def)
      with True high show ?thesis by (simp add: ydayMonthDay_def Let_def)
    next
      case nl: False
      then have yd: "?yd = day" by (auto simp add: day_def)
      show ?thesis
      proof (cases "isLeap y")
        case True
        with nl have "m \<le> 2" by simp
        with low True yd show ?thesis by (simp add: ydayMonthDay_def Let_def)
      next
        case False
        with yd show ?thesis by (simp add: ydayMonthDay_def Let_def)
      qed
    qed
    also have "\<dots> = (m, d)"
      unfolding day_def by (rule ydayMonthDay_common [OF m d(1) d'])
    finally show ?thesis .
  qed
qed

lemma yday_range:
  assumes "validDate y m d"
  defines "yd \<equiv> daysBefore (m - 1) + (if isLeap y \<and> m \<ge> 3 then 1 else 0) + (d - 1)"
  shows "0 \<le> yd" and "yd < 365 + (if isLeap y then 1 else 0)"
proof -
  from assms have m: "1 \<le> m" "m \<le> 12" and d: "1 \<le> d" "d \<le> daysIn m y"
    by (simp_all add: validDate_def)
  show "0 \<le> yd"
    using month_disj [OF m] d by (auto simp: yd_def daysBefore_def)
  show "yd < 365 + (if isLeap y then 1 else 0)"
    using month_disj [OF m] d by (auto simp: yd_def daysBefore_def daysIn_def split: if_splits)
qed

lemma absDate_dateToDays:
  assumes "validDate y m d"
  shows "absDate (dateToDays y m d) = (y, m, d)"
proof -
  let ?yd = "daysBefore (m - 1) + (if isLeap y \<and> m \<ge> 3 then 1 else 0) + (d - 1)"
  have "dateToDays y m d = daysSinceEpoch y + ?yd" by (simp add: dateToDays_def)
  moreover have "absYear (daysSinceEpoch y + ?yd) = (y, ?yd)"
    using yday_range [OF assms] by (rule absYear_daysSinceEpoch)
  ultimately show ?thesis
    using ydayMonthDay_inverse [OF assms] by (simp add: absDate_def)
qed

subsection \<open>\<open>time.Date\<close> and the accessors\<close>


lemma time_Date_midnight:
  "time_Date y m d 0 0 0 0 UTC
     = \<lparr>isec = dateToDays (y + (m - 1) div 12) ((m - 1) mod 12 + 1) d * 86400,
        insec = 0, iloc = UTC\<rparr>"
  by (simp add: time_Date_def norm_def UTC_def secondsPerDay_def)

lemma time_Date_midnight_valid:
  assumes "1 \<le> m" "m \<le> 12"
  shows "time_Date y m d 0 0 0 0 UTC = \<lparr>isec = dateToDays y m d * 86400, insec = 0, iloc = UTC\<rparr>"
proof -
  have "(m - 1) div 12 = 0" "(m - 1) mod 12 = m - 1" using assms by simp_all
  then show ?thesis by (simp add: time_Date_midnight)
qed

lemma time_date_midnight: "time_date \<lparr>isec = D * 86400, insec = n, iloc = UTC\<rparr> = absDate D"
  by (simp add: time_date_def time_abs_def UTC_def secondsPerDay_def)

lemma NewDate_Date:
  assumes "validDate y m d"
  shows "Date_Date (NewDate y m d) = (y, m, d)"
proof -
  from assms have "1 \<le> m" "m \<le> 12" by (simp_all add: validDate_def)
  then show ?thesis
    by (simp add: Date_Date_def NewDate_def time_Date_midnight_valid time_date_midnight
        absDate_dateToDays [OF assms])
qed

subsection \<open>Words\<close>

lemma Uint32_PutUint32: "Uint32 (PutUint32 v) = v"
proof (rule bit_word_eqI)
  fix n assume n: "n < LENGTH(32)"
  consider "n < 8" | "8 \<le> n" "n < 16" | "16 \<le> n" "n < 24" | "24 \<le> n" by linarith
  then show "bit (Uint32 (PutUint32 v)) n = bit v n"
    using n by cases (auto simp add: Uint32_def PutUint32_def bit_simps)
qed

lemma mask14: "(0x3FFF :: uint32) = mask 14" by (simp add: mask_eq_exp_minus_1)
lemma mask4: "(0xF :: uint32) = mask 4" by (simp add: mask_eq_exp_minus_1)
lemma mask5: "(0x1F :: uint32) = mask 5" by (simp add: mask_eq_exp_minus_1)

lemma no_high_bits:
  assumes "0 \<le> (y::int)" "y < 2 ^ k" "k \<le> n"
  shows "\<not> bit y n"
  using assms by (metis bit_take_bit_iff not_le take_bit_int_eq_self)

lemma pack_year: "pack y m d AND 0x3FFF = take_bit 14 (word_of_int y)"
  unfolding pack_def mask14
  by (rule bit_word_eqI) (auto simp: bit_simps)

lemma pack_month:
  assumes "0 \<le> y" "y < 2 ^ 14"
  shows "drop_bit 14 (pack y m d) AND 0xF = take_bit 4 (word_of_int m)"
  unfolding pack_def mask4
  by (rule bit_word_eqI) (auto simp: bit_simps no_high_bits [OF assms])

lemma pack_day:
  assumes y: "0 \<le> y" "y < 2 ^ 14" and m: "0 \<le> m" "m < 2 ^ 4"
  shows "drop_bit (14 + 4) (pack y m d) AND 0x1F = take_bit 5 (word_of_int d)"
  unfolding pack_def mask5
  by (rule bit_word_eqI) (auto simp: bit_simps no_high_bits [OF y] no_high_bits [OF m])

lemma uint_take_bit_small:
  "0 \<le> y \<Longrightarrow> y < 2 ^ n \<Longrightarrow> n \<le> 32 \<Longrightarrow> uint (take_bit n (word_of_int y :: uint32)) = y"
  by (simp add: unsigned_take_bit_eq uint_word_of_int_eq take_bit_int_eq_self min_def)

lemma uint_take_bit_mod:
  assumes n: "n \<le> 32"
  shows "uint (take_bit n (word_of_int y :: uint32)) = y mod 2 ^ n"
proof -
  have "uint (take_bit n (word_of_int y :: uint32)) = take_bit n (take_bit 32 y)"
    by (simp only: unsigned_take_bit_eq uint_word_of_int_eq) simp
  also have "\<dots> = take_bit n y" using n by (simp add: min_def)
  finally show ?thesis by (simp only: take_bit_eq_mod)
qed

lemma Date_MarshalBinary_pack:
  "Date_MarshalBinary d = (let (y, m, day) = Date_Date d in (PutUint32 (pack y m day), None))"
  by (simp add: Date_MarshalBinary_def Date_Date_def pack_def Let_def or.assoc split: prod.splits)

lemma length_PutUint32: "length (PutUint32 v) = 4"
  by (simp add: PutUint32_def)

lemma daysIn_le_31: "1 \<le> m \<Longrightarrow> m \<le> 12 \<Longrightarrow> daysIn m y \<le> 31"
  using month_disj [of m] by (auto simp: daysIn_def daysBefore_def)





subsection \<open>Month arithmetic\<close>


















subsection \<open>Dates keep the clock at midnight UTC\<close>

















subsection \<open>Times of day keep the calendar at year 0, January 1\<close>










subsection \<open>Truncated division\<close>












subsection \<open>Digits\<close>

lemma of_char_digitChar: "n < 10 \<Longrightarrow> (of_char (digitChar n) :: nat) = 48 + n"
  by (simp add: digitChar_def)

lemma isDigitChar_digitChar: "n < 10 \<Longrightarrow> isDigitChar (digitChar n)"
  by (simp add: isDigitChar_def of_char_digitChar)

lemma digitVal_digitChar: "n < 10 \<Longrightarrow> digitVal (digitChar n) = int n"
  by (simp add: digitVal_def of_char_digitChar)

lemma digitChar_0: "digitChar 0 = CHR ''0''"
  by code_simp


lemma digits_small: "u < 10 \<Longrightarrow> digits u = [digitChar u]"
  by (simp add: digits.simps)

lemma digits_two: "10 \<le> u \<Longrightarrow> u < 100 \<Longrightarrow> digits u = [digitChar (u div 10), digitChar (u mod 10)]"
  by (subst digits.simps) (simp add: digits_small)

lemma digits_three:
  "100 \<le> u \<Longrightarrow> u < 1000 \<Longrightarrow>
     digits u = [digitChar (u div 100), digitChar (u div 10 mod 10), digitChar (u mod 10)]"
  by (subst digits.simps) (simp add: digits_two div_mult2_eq [symmetric])

lemma digits_four:
  "1000 \<le> u \<Longrightarrow> u < 10000 \<Longrightarrow>
     digits u = [digitChar (u div 1000), digitChar (u div 100 mod 10), digitChar (u div 10 mod 10),
                 digitChar (u mod 10)]"
  by (subst digits.simps) (simp add: digits_three div_mult2_eq [symmetric])

lemma appendInt_two:
  assumes "0 \<le> x" "x < 100"
  shows "appendInt x 2 = two (nat x)"
proof (cases "nat x < 10")
  case True
  then show ?thesis using assms
    by (simp add: appendInt_def two_def digits_small digitChar_0)
next
  case False
  then have "10 \<le> nat x" "nat x < 100" using assms by simp_all
  then show ?thesis using assms by (simp add: appendInt_def two_def digits_two)
qed

lemma replicate_small:
  "replicate 3 c = [c, c, c]" "replicate 2 c = [c, c]" "replicate (Suc 0) c = [c]"
  by (simp_all add: numeral_3_eq_3 numeral_2_eq_2)

lemma appendInt_four:
  assumes "0 \<le> x" "x < 10000"
  shows "appendInt x 4 = four (nat x)"
proof -
  let ?u = "nat x"
  have nn: "\<not> x < 0" "\<bar>x\<bar> = x" using assms by simp_all
  consider "?u < 10" | "10 \<le> ?u" "?u < 100" | "100 \<le> ?u" "?u < 1000" | "1000 \<le> ?u" "?u < 10000"
    using assms by linarith
  then show ?thesis
  proof cases
    case 1
    then have "digits ?u = [digitChar ?u]" by (rule digits_small)
    moreover have "?u div 1000 = 0" "?u div 100 = 0" "?u div 10 = 0" "?u mod 10 = ?u"
      using 1 by simp_all
    ultimately show ?thesis
      by (simp add: appendInt_def four_def nn digitChar_0 replicate_small)
  next
    case 2
    then have "digits ?u = [digitChar (?u div 10), digitChar (?u mod 10)]" by (rule digits_two)
    moreover have "?u div 1000 = 0" "?u div 100 = 0" "?u div 10 mod 10 = ?u div 10"
      using 2 by simp_all
    ultimately show ?thesis
      by (simp add: appendInt_def four_def nn digitChar_0 replicate_small)
  next
    case 3
    then have "digits ?u = [digitChar (?u div 100), digitChar (?u div 10 mod 10), digitChar (?u mod 10)]"
      by (rule digits_three)
    moreover have "?u div 1000 = 0" "?u div 100 mod 10 = ?u div 100"
      using 3 by simp_all
    ultimately show ?thesis
      by (simp add: appendInt_def four_def nn digitChar_0 replicate_small)
  next
    case 4
    then have "digits ?u = four ?u" unfolding four_def by (rule digits_four)
    then show ?thesis
      by (simp add: appendInt_def nn four_def)
  qed
qed

subsection \<open>Parsing what was formatted\<close>

lemma int_div_mod_10: "int (u div 10) * 10 + int (u mod 10) = int u"
  by (simp add: zdiv_int zmod_int)

lemma getnum_two:
  assumes "u < 100"
  shows "getnum (two u @ rest) fixed = Some (int u, rest)"
proof -
  have a: "u div 10 < 10" "u mod 10 < 10" using assms by simp_all
  show ?thesis
    by (simp add: getnum_def two_def isDigit_def isDigitChar_digitChar [OF a(1)]
        isDigitChar_digitChar [OF a(2)] digitVal_digitChar [OF a(1)] digitVal_digitChar [OF a(2)]
        int_div_mod_10)
qed

lemma atoi_four:
  assumes "u < 10000"
  shows "atoi_digits (four u) 0 = Some (int u)"
proof -
  have a: "u div 1000 < 10" "u div 100 mod 10 < 10" "u div 10 mod 10 < 10" "u mod 10 < 10"
    using assms by simp_all
  have d1: "u div 10 div 10 = u div 100" "u div 100 div 10 = u div 1000"
    by (simp_all add: div_mult2_eq [symmetric])
  have "int (u div 100) = int (u div 1000) * 10 + int (u div 100 mod 10)"
    using int_div_mod_10 [of "u div 100"] by (simp add: d1)
  moreover have "int (u div 10) = int (u div 100) * 10 + int (u div 10 mod 10)"
    using int_div_mod_10 [of "u div 10"] by (simp add: d1)
  moreover have "int u = int (u div 10) * 10 + int (u mod 10)"
    using int_div_mod_10 [of u] by simp
  ultimately have "int u = ((int (u div 1000) * 10 + int (u div 100 mod 10)) * 10
                             + int (u div 10 mod 10)) * 10 + int (u mod 10)"
    by (simp only:)
  then show ?thesis
    by (simp add: four_def isDigitChar_digitChar [OF a(1)] isDigitChar_digitChar [OF a(2)]
        isDigitChar_digitChar [OF a(3)] isDigitChar_digitChar [OF a(4)]
        digitVal_digitChar [OF a(1)] digitVal_digitChar [OF a(2)]
        digitVal_digitChar [OF a(3)] digitVal_digitChar [OF a(4)])
qed

lemma length_two: "length (two u) = 2" by (simp add: two_def)
lemma length_four: "length (four u) = 4" by (simp add: four_def)

lemma two_not_Nil: "two u \<noteq> []" by (simp add: two_def)

lemma parseStd_year:
  assumes "u < 10000"
  shows "parseStd StdLongYear cs (four u @ rest) st = Inr (rest, st\<lparr>p_year := int u\<rparr>)"
proof -
  have "u div 1000 < 10" using assms by simp
  then have "isDigit (four u @ rest) 0"
    by (simp add: isDigit_def four_def isDigitChar_digitChar)
  then show ?thesis
    by (simp add: length_four atoi_four [OF assms])
qed

lemma parseStd_month:
  assumes "1 \<le> u" "u \<le> 12"
  shows "parseStd StdZeroMonth cs (two u @ rest) st = Inr (rest, st\<lparr>p_month := int u\<rparr>)"
  using assms by (simp add: getnum_two)

lemma parseStd_day:
  assumes "u < 100"
  shows "parseStd StdZeroDay cs (two u @ rest) st = Inr (rest, st\<lparr>p_day := int u\<rparr>)"
  using assms by (simp add: getnum_two)





lemma parseStd_lit: "parseStd (Lit [c]) cs (c # rest) st = (if c = CHR '' '' then
      (case skip (cutspace (c # rest)) [] of None \<Rightarrow> Inl ErrBad | Some v \<Rightarrow> Inr (v, st))
      else Inr (rest, st))"
  by (simp add: cutspace_def)

lemma parseStd_day_nil:
  "u < 100 \<Longrightarrow> parseStd StdZeroDay cs (two u) st = Inr ([], st\<lparr>p_day := int u\<rparr>)"
  using parseStd_day [of u cs "[]" st] by (simp del: parseStd.simps)

text \<open>The fields of a date, formatted.\<close>

lemma Format_dateLayout:
  assumes v: "validDate y m d" and y: "0 \<le> y" "y \<le> 9999"
  shows "time_Format (date_t (NewDate y m d)) dateLayout
           = four (nat y) @ ''-'' @ two (nat m) @ ''-'' @ two (nat d)"
proof -
  from v have m: "1 \<le> m" "m \<le> 12" and d: "1 \<le> d" "d \<le> daysIn m y"
    by (simp_all add: validDate_def)
  have d31: "d \<le> 31" using d daysIn_le_31 [OF m, of y] by simp
  have f: "time_Year (date_t (NewDate y m d)) = y" "time_Month (date_t (NewDate y m d)) = m"
    "time_Day (date_t (NewDate y m d)) = d"
    using NewDate_Date [OF v] by (simp_all add: Date_Date_def time_Year_def time_Month_def time_Day_def)
  show ?thesis
    using y m d d31
    by (simp add: time_Format_def dateLayout_def f appendInt_four appendInt_two)
qed

lemma parseLoop_dateLayout:
  assumes v: "validDate y m d" and y: "0 \<le> y" "y \<le> 9999"
  shows "parseLoop dateLayout (four (nat y) @ ''-'' @ two (nat m) @ ''-'' @ two (nat d)) pstate0
           = Inr (pstate0\<lparr>p_year := y, p_month := m, p_day := d\<rparr>)"
proof -
  from v have m: "1 \<le> m" "m \<le> 12" and d: "1 \<le> d" "d \<le> daysIn m y"
    by (simp_all add: validDate_def)
  have d31: "d \<le> 31" using d daysIn_le_31 [OF m, of y] by simp
  have u: "nat y < 10000" "1 \<le> nat m" "nat m \<le> 12" "nat d < 100"
    using y m d d31 by simp_all
  show ?thesis
    using y m d
    by (simp add: dateLayout_def parseStd_year [OF u(1)] parseStd_month [OF u(2,3)]
        parseStd_day_nil [OF u(4)] del: parseStd.simps(2-))
qed

lemma time_Parse_date:
  assumes v: "validDate y m d" and y: "0 \<le> y" "y \<le> 9999"
  shows "time_Parse local dateLayout (four (nat y) @ ''-'' @ two (nat m) @ ''-'' @ two (nat d))
           = Inr (time_Date y m d 0 0 0 0 UTC)"
proof -
  from v have "1 \<le> m" "1 \<le> d" "d \<le> daysIn m y" by (simp_all add: validDate_def)
  then show ?thesis
    unfolding time_Parse_def parse_def parseLoop_dateLayout [OF assms]
    by (simp add: pstate0_def Let_def)
qed







lemma parseStd_Z:
  "parseStd StdISO8601ColonTZ cs (CHR ''Z'' # rest) st = Inr (rest, st\<lparr>p_z := Some UTC\<rparr>)"
  by simp

















lemma parse_result_UTC:
  assumes "1 \<le> m" "1 \<le> d" "d \<le> daysIn m y"
  shows "(let st = pstate0\<lparr>p_year := y, p_month := m, p_day := d, p_hour := h, p_min := mi,
                          p_sec := s, p_z := Some UTC\<rparr>;
              month = (if p_month st < 0 then 1 else p_month st);
              day = (if p_day st < 0 then 1 else p_day st)
          in if day < 1 \<or> day > daysIn month (p_year st) then Inl (ErrRange ''day'')
             else Inr (time_Date (p_year st) month day (p_hour st) (p_min st) (p_sec st)
                          (p_nsec st) UTC)) = Inr (time_Date y m d h mi s 0 UTC)"
  using assms by (simp add: pstate0_def Let_def)






















section \<open>Claims\<close>

text \<open>
  C1.  For every valid date with year in 0..16383, month in 1..12 and day in 1..31
  consistent with that month, the binary codec of \<open>Date\<close> round-trips exactly:
  \<open>UnmarshalBinary\<close> applied to the four bytes of \<open>MarshalBinary\<close> stores a \<open>Date\<close> equal to
  the original and returns no error, whatever the receiver held before.
\<close>

theorem Date_binary_roundtrip:
  assumes "0 \<le> year" "year \<le> 16383" "validDate year month day"
  shows "Date_UnmarshalBinary d0 (fst (Date_MarshalBinary (NewDate year month day)))
           = (NewDate year month day, None)
         \<and> snd (Date_MarshalBinary (NewDate year month day)) = None"
proof -
  from assms(3) have m: "1 \<le> month" "month \<le> 12" and d: "1 \<le> day" "day \<le> daysIn month year"
    by (simp_all add: validDate_def)
  from d daysIn_le_31 [OF m, of year] have d31: "day \<le> 31" by simp
  have y: "0 \<le> year" "year < 2 ^ 14" using assms by simp_all
  have m4: "0 \<le> month" "month < 2 ^ 4" using m by simp_all
  have mb: "Date_MarshalBinary (NewDate year month day) = (PutUint32 (pack year month day), None)"
    by (simp add: Date_MarshalBinary_pack NewDate_Date [OF assms(3)])
  have "uint (pack year month day AND 0x3FFF) = year"
    unfolding pack_year using y by (simp add: uint_take_bit_small)
  moreover have "uint (drop_bit 14 (pack year month day) AND 0xF) = month"
    unfolding pack_month [OF y] using m4 by (simp add: uint_take_bit_small)
  moreover have "uint (drop_bit (14 + 4) (pack year month day) AND 0x1F) = day"
    unfolding pack_day [OF y m4] using d d31 by (simp add: uint_take_bit_small)
  ultimately show ?thesis
    unfolding mb by (simp add: Date_UnmarshalBinary_def Uint32_PutUint32 length_PutUint32 Let_def)
qed

theorem Date_binary_roundtrip_witness:
  "(0::int) \<le> 2000 \<and> (2000::int) \<le> 16383 \<and> validDate 2000 1 2
   \<and> Date_UnmarshalBinary (NewDate 1 1 1) (fst (Date_MarshalBinary (NewDate 2000 1 2)))
       = (NewDate 2000 1 2, None)"
proof -
  have v: "validDate 2000 1 2" by (simp add: validDate_def daysIn_def daysBefore_def)
  from Date_binary_roundtrip [of 2000 1 2 "NewDate 1 1 1", OF _ _ v] v show ?thesis by simp
qed



text \<open>
  C9.  The claim is that for a year of 16384 or more only the year wraps.  The encoder
  ORs the whole year into the word without masking it to 14 bits, so the bits of the
  year from 14 upwards land in the month and day fields.  Evaluated at 16384-02-01: the
  date decodes as 0000-03-01, not as 0000-02-01.
\<close>

theorem Date_binary_year_16384:
  "Date_Date (NewDate 16384 2 1) = (16384, 2, 1)
   \<and> Date_UnmarshalBinary d0 (fst (Date_MarshalBinary (NewDate 16384 2 1)))
       = (NewDate 0 3 1, None)
   \<and> Date_Date (NewDate 0 3 1) = (0, 3, 1)"
  by code_simp



text \<open>
  C6.  The claim is that \<open>NewTime(hour, min, sec, nsec, loc)\<close> carries the zone \<open>loc\<close>.
  The body passes \<open>time.UTC\<close> to \<open>time.Date\<close> and never uses \<open>loc\<close>: whatever zone the
  caller supplies, the zone read back is UTC.
\<close>

theorem NewTime_location_is_UTC:
  "Time_Location (NewTime hour minute sec nsec loc) = UTC
   \<and> zoffset (Time_Location (NewTime 3 4 5 0 (FixedZone ''EST'' (- 18000)))) = 0
   \<and> zoffset (FixedZone ''EST'' (- 18000)) = - 18000"
  by (simp add: Time_Location_def NewTime_def time_Location_def time_Date_def norm_def
      FixedZone_def UTC_def Let_def split: prod.splits)

text \<open>
  C7.  The claim is that \<open>Scan\<close> of each of the three types accepts a \<open>time.Time\<close>.
  \<open>Date.Scan\<close> and \<open>Time.Scan\<close> do; the type switch of \<open>DateTime.Scan\<close> has no case for
  it, so a \<open>time.Time\<close> falls through to the type error and the receiver is unchanged.
\<close>

theorem DateTime_Scan_rejects_time_Time:
  "DateTime_Scan local d (StdTime t)
     = (d, Some (Errorf ''failed to scan type 'time.Time' into datetime''))
   \<and> Date_Scan local d1 (StdTime t) = (DateFromStdTime t, None)
   \<and> Time_Scan local d2 (StdTime t) = (TimeFromStdTime t, None)"
  by simp

text \<open>
  C8.  A nil input to \<open>Scan\<close> on \<open>Date\<close> or \<open>Time\<close> succeeds and resets the receiver to
  the zero value of the type; a nil input to \<open>DateTime.Scan\<close> falls through to the type
  error; an unsupported dynamic type given to any of the three \<open>Scan\<close> methods yields an
  error whose message names that type, and leaves the receiver as it was.
\<close>

theorem Scan_nil_and_unsupported:
  "Date_Scan local d Nil = (Date zeroInstant, None)
   \<and> Time_Scan local t Nil = (Time zeroInstant, None)
   \<and> DateTime_Scan local dt Nil
       = (dt, Some (Errorf ''failed to scan type '<nil>' into datetime''))
   \<and> Date_Scan local d (Other n)
       = (d, Some (Errorf (''failed to scan type '' @ [CHR 0x27] @ n @ [CHR 0x27] @ '' into date'')))
   \<and> Time_Scan local t (Other n)
       = (t, Some (Errorf (''failed to scan type '' @ [CHR 0x27] @ n @ [CHR 0x27] @ '' into time'')))
   \<and> DateTime_Scan local dt (Other n)
       = (dt, Some (Errorf (''failed to scan type '' @ [CHR 0x27] @ n @ [CHR 0x27]
                              @ '' into datetime'')))"
  by simp

text \<open>
  C10.  The claim is that \<open>TimeFromLayoutLocation(layout, str, loc)\<close> parses \<open>str\<close>
  according to \<open>layout\<close>.  The body passes the constant \<open>timeLayout\<close> to
  \<open>time.ParseInLocation\<close>: the result never depends on \<open>layout\<close> and is that of
  \<open>TimeFromStringLocation\<close>.  With the layout \<open>15:04\<close> the input \<open>03:04\<close> is refused,
  while \<open>TimeFromLayout\<close> parses it.
\<close>

theorem TimeFromLayoutLocation_ignores_layout:
  "TimeFromLayoutLocation layout str loc = TimeFromStringLocation str loc
   \<and> TimeFromLayoutLocation [StdHour, Lit '':'', StdZeroMinute] ''03:04'' UTC
       = (Time zeroInstant, Some (Wrap ''failed to parse time (%s): %w'' ''03:04'' (ParseError ErrBad)))
   \<and> TimeFromLayout UTC [StdHour, Lit '':'', StdZeroMinute] ''03:04'' = (NewTime 3 4 0 0 UTC, None)"
proof -
  have 1: "TimeFromLayoutLocation layout str loc = TimeFromStringLocation str loc"
    by (simp add: TimeFromLayoutLocation_def TimeFromStringLocation_def)
  have 2: "TimeFromLayoutLocation [StdHour, Lit '':'', StdZeroMinute] ''03:04'' UTC
       = (Time zeroInstant, Some (Wrap ''failed to parse time (%s): %w'' ''03:04'' (ParseError ErrBad)))"
    by code_simp
  have 3: "TimeFromLayout UTC [StdHour, Lit '':'', StdZeroMinute] ''03:04'' = (NewTime 3 4 0 0 UTC, None)"
    by code_simp
  from 1 2 3 show ?thesis by simp
qed







end
